theory Spec2Isabelle
  imports Main "HOL-Library.Word" "HOL-Library.Multiset" "HOL-Library.AList"
begin

unbundle bit_operations_syntax

section \<open>The metadata store (db/append.go and the sequence-cache migration)\<close>

subsection \<open>Tables\<close>

text \<open>
  \<open>imap.UID\<close> is a \<open>uint32\<close>; the columns \<open>uid\<close> and \<open>highest_uid\<close> are \<open>BIGINT\<close>.
  A table is the list of its rows; the driver's calls run against a transaction whose
  state is passed in and returned, also on the error paths (the caller rolls back).
\<close>

type_synonym UID = "32 word"

record mailbox =
  mailbox_name :: string
  highest_uid :: int
  uid_validity :: int

text \<open>
  The columns that the statements of append.go only carry from the options (or from the
  copied row) into the new row.
\<close>

record descr_columns =
  in_reply_to :: string
  subject :: string
  sent_date :: int
  internal_date :: int
  custom_flags :: string
  msg_size :: int
  body_structure :: string
  recipients_json :: string
  s3_domain :: string
  s3_localpart :: string
  subject_sort :: string
  from_name_sort :: string
  from_email_sort :: string
  to_email_sort :: string
  cc_email_sort :: string

record message =
  msg_id :: int
  account_id :: int
  mailbox_id :: "int option"
  mailbox_path :: string
  uid :: int
  message_id :: string
  content_hash :: string
  uploaded :: bool
  flags :: int
  flags_changed_at :: "int option"
  created_modseq :: int
  expunged_at :: "int option"
  descr :: descr_columns

record seq_row =
  seq_mailbox_id :: int
  seq_uid :: int
  seqnum :: int

record content_row =
  mc_content_hash :: string
  mc_text_body :: "string option"
  mc_tsv_source :: string
  mc_headers :: string

record pending_upload_row =
  pu_instance_id :: string
  pu_content_hash :: string
  pu_size :: int
  pu_created_at :: int
  pu_account_id :: int

record db =
  mailboxes :: "int \<rightharpoonup> mailbox"
  messages :: "message list"
  message_sequences :: "seq_row list"
  message_contents :: "content_row list"
  pending_uploads :: "pending_upload_row list"
  messages_id_seq :: int
  messages_modseq :: int
  advisory_locks :: "int list"

datatype pg_error =
    UniqueViolation string
  | NumericValueOutOfRange
  | NoRows
  | DriverError

text \<open>Every call of append.go that can return an error, by the place it is made.\<close>

datatype call =
    CopySelect | CopyScan | CopyRowsErr | CopyUpdateHighestUID | CopySelectName | CopyInsert
  | InsSerializeBodyStructure | InsUpdateHighestUID | InsUpdateUIDValidity
  | InsMarshalRecipients | InsMarshalKeywords | InsInsert | InsLookup
  | InsInsertContents | InsInsertPending

datatype error =
    ErrSameMailbox
  | ErrInternalError
  | ErrScan
  | ErrRowsIteration
  | ErrDBUpdateFailed
  | ErrDestMailboxName
  | ErrBatchCopy
  | ErrSerializationFailed
  | ErrMarshalKeywords
  | ErrDBUniqueViolation
  | ErrDBInsertFailed

subsection \<open>The environment of a call\<close>

record InsertMessageOptions =
  UserID :: int
  MailboxID :: int
  MailboxName :: string
  ContentHash :: string
  MessageID :: string
  Subject :: string
  PlaintextBody :: string
  SentDate :: int
  InternalDate :: int
  RawHeaders :: string
  PreservedUID :: "UID option"
  PreservedUIDValidity :: "UID option"
  FTSRetention :: int

record PendingUpload =
  InstanceID :: string
  UploadContentHash :: string
  UploadSize :: int
  UploadAccountID :: int

text \<open>
  What append.go takes from outside the file: the clock, the constant \<open>FlagRecent\<close>, the
  helper \<open>helpers.SanitizeUTF8\<close>, the helpers that compute the carried columns and the
  flag bits from the options, the constraints that the schema puts on a new row of
  \<open>messages\<close> (a row is checked against the table it is added to), and which driver calls
  fail for a reason outside the tables (a lost connection, a cancelled context).
\<close>

record env =
  now :: int
  FlagRecent :: int
  SanitizeUTF8 :: "string \<Rightarrow> string"
  descr_of_options :: "InsertMessageOptions \<Rightarrow> descr_columns"
  bitwise_flags_of_options :: "InsertMessageOptions \<Rightarrow> int"
  messages_constraints :: "message list \<Rightarrow> message \<Rightarrow> pg_error option"
  faults :: "call \<Rightarrow> bool"

subsection \<open>The trigger \<open>maintain_message_sequences\<close>\<close>

datatype tg_op = TG_INSERT | TG_UPDATE | TG_DELETE

definition distinct_mailbox_ids :: "message list \<Rightarrow> int list" where
  \<comment> \<open>\<open>SELECT DISTINCT mailbox_id FROM t WHERE mailbox_id IS NOT NULL\<close>\<close>
  "distinct_mailbox_ids t = remdups (List.map_filter mailbox_id t)"

definition affected_mailboxes :: "tg_op \<Rightarrow> message list \<Rightarrow> message list \<Rightarrow> int list" where
  "affected_mailboxes tg old_table new_table =
     (case tg of
        TG_INSERT \<Rightarrow> distinct_mailbox_ids new_table
      | TG_DELETE \<Rightarrow> distinct_mailbox_ids old_table
      | TG_UPDATE \<Rightarrow> remdups (distinct_mailbox_ids new_table @ distinct_mailbox_ids old_table))"

definition live_in :: "int \<Rightarrow> message \<Rightarrow> bool" where
  "live_in v m \<longleftrightarrow> mailbox_id m = Some v \<and> expunged_at m = None"

definition live_uids :: "message list \<Rightarrow> int \<Rightarrow> int list" where
  \<comment> \<open>the \<open>uid\<close>s of the live messages of mailbox \<open>v\<close>, \<open>ORDER BY m.uid\<close>\<close>
  "live_uids ms v = sort (map uid (filter (live_in v) ms))"

definition row_numbers :: "int \<Rightarrow> int list \<Rightarrow> seq_row list" where
  \<comment> \<open>\<open>ROW_NUMBER() OVER (ORDER BY m.uid)\<close> counts from 1\<close>
  "row_numbers v us =
     map (\<lambda>(u, i). \<lparr>seq_mailbox_id = v, seq_uid = u, seqnum = i\<rparr>)
         (zip us [1..int (length us)])"

definition rebuild_sequences :: "int \<Rightarrow> db \<Rightarrow> pg_error + db" where
  \<comment> \<open>one iteration of the trigger's loop: lock, \<open>DELETE\<close>, \<open>INSERT ... SELECT\<close>;
      the primary key is \<open>(mailbox_id, uid)\<close> and \<open>seqnum\<close> is an \<open>INT\<close>\<close>
  "rebuild_sequences v d =
     (let d1 = d\<lparr>advisory_locks := v # advisory_locks d\<rparr>;
          kept = filter (\<lambda>r. seq_mailbox_id r \<noteq> v) (message_sequences d1);
          us = live_uids (messages d1) v
      in if \<not> distinct us then Inl (UniqueViolation ''message_sequences_pkey'')
         else if 2 ^ 31 - 1 < int (length us) then Inl NumericValueOutOfRange
         else Inr (d1\<lparr>message_sequences := kept @ row_numbers v us\<rparr>))"

fun maintain_loop :: "int list \<Rightarrow> db \<Rightarrow> pg_error + db" where
  "maintain_loop [] d = Inr d"
| "maintain_loop (v # vs) d =
     (case rebuild_sequences v d of
        Inl e \<Rightarrow> Inl e
      | Inr d' \<Rightarrow> maintain_loop vs d')"

definition maintain_message_sequences ::
    "tg_op \<Rightarrow> message list \<Rightarrow> message list \<Rightarrow> db \<Rightarrow> pg_error + db" where
  "maintain_message_sequences tg old_table new_table d =
     maintain_loop (affected_mailboxes tg old_table new_table) d"

subsection \<open>Statements\<close>

fun check_rows ::
    "(message list \<Rightarrow> message \<Rightarrow> pg_error option) \<Rightarrow> message list \<Rightarrow> message list
      \<Rightarrow> pg_error option" where
  "check_rows chk tbl [] = None"
| "check_rows chk tbl (r # rs) =
     (case chk tbl r of
        Some e \<Rightarrow> Some e
      | None \<Rightarrow> check_rows chk (tbl @ [r]) rs)"

definition insert_into_messages :: "env \<Rightarrow> message list \<Rightarrow> db \<Rightarrow> pg_error + db" where
  \<comment> \<open>\<open>INSERT INTO messages\<close>: the schema's constraints, then the statement-level
      \<open>AFTER INSERT\<close> trigger; a failed statement leaves the tables as they were\<close>
  "insert_into_messages E rows d =
     (case check_rows (messages_constraints E) (messages d) rows of
        Some e \<Rightarrow> Inl e
      | None \<Rightarrow>
          maintain_message_sequences TG_INSERT [] rows
            (d\<lparr>messages := messages d @ rows,
               messages_id_seq := messages_id_seq d + int (length rows),
               messages_modseq := messages_modseq d + int (length rows)\<rparr>))"

definition bigint_max :: int where
  "bigint_max = 2 ^ 63 - 1"

definition update_highest_uid_add :: "int \<Rightarrow> int \<Rightarrow> db \<Rightarrow> pg_error + (int \<times> db)" where
  \<comment> \<open>\<open>UPDATE mailboxes SET highest_uid = highest_uid + $1 WHERE id = $2 RETURNING highest_uid\<close>\<close>
  "update_highest_uid_add n mb d =
     (case mailboxes d mb of
        None \<Rightarrow> Inl NoRows
      | Some b \<Rightarrow>
          (let h = highest_uid b + n
           in if bigint_max < h then Inl NumericValueOutOfRange
              else Inr (h, d\<lparr>mailboxes := (mailboxes d)(mb \<mapsto> b\<lparr>highest_uid := h\<rparr>)\<rparr>)))"

definition update_highest_uid_greatest :: "int \<Rightarrow> int \<Rightarrow> db \<Rightarrow> pg_error + (int \<times> db)" where
  \<comment> \<open>\<open>UPDATE mailboxes SET highest_uid = GREATEST(highest_uid, $2) WHERE id = $1
      RETURNING highest_uid\<close>\<close>
  "update_highest_uid_greatest u mb d =
     (case mailboxes d mb of
        None \<Rightarrow> Inl NoRows
      | Some b \<Rightarrow>
          (let h = max (highest_uid b) u
           in Inr (h, d\<lparr>mailboxes := (mailboxes d)(mb \<mapsto> b\<lparr>highest_uid := h\<rparr>)\<rparr>)))"

definition update_uid_validity :: "int \<Rightarrow> int \<Rightarrow> db \<Rightarrow> db" where
  \<comment> \<open>\<open>UPDATE mailboxes SET uid_validity = $2 WHERE id = $1\<close> (no row is no error)\<close>
  "update_uid_validity v mb d =
     (case mailboxes d mb of
        None \<Rightarrow> d
      | Some b \<Rightarrow> d\<lparr>mailboxes := (mailboxes d)(mb \<mapsto> b\<lparr>uid_validity := v\<rparr>)\<rparr>)"

definition guarded :: "env \<Rightarrow> call \<Rightarrow> (pg_error + 'a) \<Rightarrow> pg_error + 'a" where
  "guarded E c r = (if faults E c then Inl DriverError else r)"

subsection \<open>CopyMessages\<close>

text \<open>
  The Go arithmetic on \<open>int64\<close> is written on \<open>int\<close>: the \<open>UPDATE\<close> fails when the new
  \<open>highest_uid\<close> leaves the range of \<open>BIGINT\<close>, \<open>startUID\<close> is the old \<open>highest_uid\<close> plus
  one, and every \<open>newUID\<close> lies between \<open>startUID\<close> and the new \<open>highest_uid\<close>, so nothing
  wraps. The conversion \<open>imap.UID(newUID)\<close> to \<open>uint32\<close> does truncate; it is
  \<open>word_of_int\<close>. \<open>ORDER BY uid\<close> is a stable sort of the table's rows.
\<close>

definition select_source :: "db \<Rightarrow> int \<Rightarrow> UID list \<Rightarrow> message list" where
  \<comment> \<open>\<open>SELECT id, uid FROM messages WHERE mailbox_id = $1 AND uid = ANY($2) AND
      expunged_at IS NULL ORDER BY uid\<close>\<close>
  "select_source d src uids =
     sort_key uid (filter (\<lambda>m. live_in src m \<and> uid m \<in> set (map uint uids)) (messages d))"

fun scan_rows :: "env \<Rightarrow> message list \<Rightarrow> error + (int list \<times> UID list)" where
  \<comment> \<open>the \<open>rows.Next()\<close> loop; scanning a \<open>BIGINT\<close> into a \<open>uint32\<close> fails out of range\<close>
  "scan_rows E [] = Inr ([], [])"
| "scan_rows E (m # ms) =
     (if faults E CopyScan \<or> uid m < 0 \<or> 2 ^ 32 \<le> uid m then Inl ErrScan
      else (case scan_rows E ms of
              Inl e \<Rightarrow> Inl e
            | Inr (ids, us) \<Rightarrow> Inr (msg_id m # ids, word_of_int (uid m) # us)))"

definition new_uid_map :: "UID list \<Rightarrow> int \<Rightarrow> (int list \<times> (UID \<rightharpoonup> UID))" where
  \<comment> \<open>the loop over \<open>sourceUIDsForMap\<close>: \<open>newUID := startUID + int64(i)\<close>,
      \<open>messageUIDMap[sourceUID] = imap.UID(newUID)\<close>\<close>
  "new_uid_map sourceUIDsForMap startUID =
     (let newUIDs = map (\<lambda>i. startUID + int i) [0..<length sourceUIDsForMap]
      in (newUIDs,
          fold (\<lambda>(s, n) m. m(s \<mapsto> word_of_int n)) (zip sourceUIDsForMap newUIDs) Map.empty))"

definition copied_row :: "env \<Rightarrow> int \<Rightarrow> string \<Rightarrow> message \<Rightarrow> int \<Rightarrow> message" where
  "copied_row E dest dest_name m new_uid =
     m\<lparr>mailbox_id := Some dest, mailbox_path := dest_name,
       flags := flags m OR FlagRecent E, flags_changed_at := Some (now E),
       uid := new_uid, expunged_at := None\<rparr>"

definition copy_join :: "env \<Rightarrow> db \<Rightarrow> int \<Rightarrow> string \<Rightarrow> int list \<Rightarrow> int list \<Rightarrow> message list" where
  \<comment> \<open>\<open>FROM messages m JOIN unnest($3, $4) AS d(message_id, new_uid) ON m.id = d.message_id\<close>\<close>
  "copy_join E d dest dest_name messageIDs newUIDs =
     concat (map (\<lambda>(mid, nu). map (\<lambda>m. copied_row E dest dest_name m nu)
                                  (filter (\<lambda>m. msg_id m = mid) (messages d)))
                 (zip messageIDs newUIDs))"

definition number_rows :: "db \<Rightarrow> message list \<Rightarrow> message list" where
  \<comment> \<open>the defaults \<open>id\<close> and \<open>nextval('messages_modseq')\<close> of the new rows\<close>
  "number_rows d rows =
     map (\<lambda>(m, i). m\<lparr>msg_id := messages_id_seq d + i,
                      created_modseq := messages_modseq d + i\<rparr>)
         (zip rows [1..int (length rows)])"

definition CopyMessages ::
    "env \<Rightarrow> UID list \<Rightarrow> int \<Rightarrow> int \<Rightarrow> int \<Rightarrow> db \<Rightarrow> (error + (UID \<rightharpoonup> UID)) \<times> db" where
  "CopyMessages E uids srcMailboxID destMailboxID userID d =
     (if srcMailboxID = destMailboxID then (Inl ErrSameMailbox, d)
      else if faults E CopySelect then (Inl ErrInternalError, d)
      else
        (case scan_rows E (select_source d srcMailboxID uids) of
           Inl e \<Rightarrow> (Inl e, d)
         | Inr (messageIDs, sourceUIDsForMap) \<Rightarrow>
             if faults E CopyRowsErr then (Inl ErrRowsIteration, d)
             else if length messageIDs = 0 then (Inr Map.empty, d)
             else
               (let numToCopy = int (length messageIDs)
                in case guarded E CopyUpdateHighestUID
                          (update_highest_uid_add numToCopy destMailboxID d) of
                     Inl e \<Rightarrow> (Inl ErrDBUpdateFailed, d)
                   | Inr (newHighestUID, d1) \<Rightarrow>
                       (let startUID = newHighestUID - numToCopy + 1;
                            (newUIDs, messageUIDMap) = new_uid_map sourceUIDsForMap startUID
                        in case guarded E CopySelectName
                                  (case mailboxes d1 destMailboxID of
                                     None \<Rightarrow> Inl NoRows
                                   | Some b \<Rightarrow> Inr (mailbox_name b)) of
                             Inl e \<Rightarrow> (Inl ErrDestMailboxName, d1)
                           | Inr destMailboxName \<Rightarrow>
                               (case guarded E CopyInsert
                                       (insert_into_messages E
                                          (number_rows d1
                                             (copy_join E d1 destMailboxID destMailboxName
                                                messageIDs newUIDs)) d1) of
                                  Inl e \<Rightarrow> (Inl ErrBatchCopy, d1)
                                | Inr d2 \<Rightarrow> (Inr messageUIDMap, d2))))))"


subsection \<open>InsertMessage and InsertMessageFromImporter\<close>

definition digit_char :: "nat \<Rightarrow> char" where
  "digit_char k = char_of (k + 48)"

fun decimal :: "nat \<Rightarrow> string" where
  \<comment> \<open>the verb \<open>%d\<close> on a non-negative number\<close>
  "decimal n = (if 10 \<le> n then decimal (n div 10) @ [digit_char (n mod 10)] else [digit_char n])"

definition sprint_d :: "int \<Rightarrow> string" where
  "sprint_d i = (if i < 0 then CHR ''-'' # decimal (nat (- i)) else decimal (nat i))"

definition sane_message_id :: "env \<Rightarrow> InsertMessageOptions \<Rightarrow> string" where
  \<comment> \<open>\<open>saneMessageID\<close>; an empty one is replaced by \<open>fmt.Sprintf("<%d@%s>", now, MailboxName)\<close>\<close>
  "sane_message_id E opts =
     (let saneMessageID = SanitizeUTF8 E (MessageID opts)
      in if saneMessageID = [] then ''<'' @ sprint_d (now E) @ ''@'' @ MailboxName opts @ ''>''
         else saneMessageID)"

definition messages_uploaded_default :: bool where
  \<comment> \<open>Modelled from the spec: the default of the column \<open>messages.uploaded\<close>, which the
      \<open>INSERT\<close> of InsertMessage does not list; the schema that declares it is not among the
      sources. The spec: a message inserted via APPEND/LMTP starts with \<open>uploaded=false\<close>.\<close>
  "messages_uploaded_default = False"

definition reserve_uid ::
    "env \<Rightarrow> InsertMessageOptions \<Rightarrow> db \<Rightarrow> (error + (int \<times> int)) \<times> db" where
  \<comment> \<open>the block that sets \<open>highestUID\<close> and \<open>uidToUse\<close> (the same text in both functions);
      the result is \<open>(highestUID, uidToUse)\<close>\<close>
  "reserve_uid E opts d =
     (case PreservedUID opts of
        Some p \<Rightarrow>
          (let uidToUse = uint p
           in case guarded E InsUpdateHighestUID
                     (update_highest_uid_greatest uidToUse (MailboxID opts) d) of
                Inl e \<Rightarrow> (Inl ErrDBUpdateFailed, d)
              | Inr (highestUID, d1) \<Rightarrow>
                  (case PreservedUIDValidity opts of
                     None \<Rightarrow> (Inr (highestUID, uidToUse), d1)
                   | Some v \<Rightarrow>
                       if faults E InsUpdateUIDValidity then (Inl ErrDBUpdateFailed, d1)
                       else (Inr (highestUID, uidToUse),
                             update_uid_validity (uint v) (MailboxID opts) d1)))
      | None \<Rightarrow>
          (case guarded E InsUpdateHighestUID (update_highest_uid_add 1 (MailboxID opts) d) of
             Inl e \<Rightarrow> (Inl ErrDBUpdateFailed, d)
           | Inr (highestUID, d1) \<Rightarrow> (Inr (highestUID, highestUID), d1)))"

definition new_message_row ::
    "env \<Rightarrow> InsertMessageOptions \<Rightarrow> int \<Rightarrow> bool \<Rightarrow> db \<Rightarrow> message" where
  \<comment> \<open>the \<open>VALUES\<close> of the \<open>INSERT INTO messages\<close>; \<open>InternalDate\<close> zero becomes now\<close>
  "new_message_row E opts uidToUse upl d =
     \<lparr>msg_id = messages_id_seq d + 1, account_id = UserID opts,
      mailbox_id = Some (MailboxID opts), mailbox_path = MailboxName opts, uid = uidToUse,
      message_id = sane_message_id E opts, content_hash = ContentHash opts, uploaded = upl,
      flags = bitwise_flags_of_options E opts, flags_changed_at = None,
      created_modseq = messages_modseq d + 1, expunged_at = None,
      descr = descr_of_options E
                (if InternalDate opts = 0 then opts\<lparr>InternalDate := now E\<rparr> else opts)\<rparr>"

definition prepare_insert ::
    "env \<Rightarrow> InsertMessageOptions \<Rightarrow> bool \<Rightarrow> db \<Rightarrow> (error + (int \<times> message)) \<times> db" where
  \<comment> \<open>everything before the \<open>INSERT INTO messages\<close>; the result is \<open>highestUID\<close> and the
      row to insert (whose \<open>uid\<close> is \<open>uidToUse\<close>)\<close>
  "prepare_insert E opts upl d =
     (if faults E InsSerializeBodyStructure then (Inl ErrSerializationFailed, d)
      else
        (case reserve_uid E opts d of
           (Inl e, d1) \<Rightarrow> (Inl e, d1)
         | (Inr (highestUID, uidToUse), d1) \<Rightarrow>
             if faults E InsMarshalRecipients then (Inl ErrSerializationFailed, d1)
             else if faults E InsMarshalKeywords then (Inl ErrMarshalKeywords, d1)
             else (Inr (highestUID, new_message_row E opts uidToUse upl d1), d1)))"

definition message_id_key :: string where
  "message_id_key = ''messages_message_id_mailbox_id_key''"

definition same_message :: "env \<Rightarrow> InsertMessageOptions \<Rightarrow> message \<Rightarrow> bool" where
  \<comment> \<open>\<open>WHERE account_id = $1 AND mailbox_id = $2 AND message_id = $3 AND expunged_at IS NULL\<close>\<close>
  "same_message E opts m \<longleftrightarrow>
     account_id m = UserID opts \<and> mailbox_id m = Some (MailboxID opts) \<and>
     message_id m = sane_message_id E opts \<and> expunged_at m = None"

definition lookup_existing ::
    "env \<Rightarrow> InsertMessageOptions \<Rightarrow> db \<Rightarrow> pg_error + (int \<times> int)" where
  \<comment> \<open>\<open>QueryRow(...).Scan(&existingID, &existingUID)\<close>: the first row, or \<open>ErrNoRows\<close>\<close>
  "lookup_existing E opts d =
     guarded E InsLookup
       (case filter (same_message E opts) (messages d) of
          [] \<Rightarrow> Inl NoRows
        | m # ms \<Rightarrow> Inr (msg_id m, uid m))"

datatype inserted = Inserted db | Existing int int | InsertError error

definition insert_or_existing ::
    "env \<Rightarrow> InsertMessageOptions \<Rightarrow> message \<Rightarrow> db \<Rightarrow> inserted" where
  \<comment> \<open>the \<open>INSERT INTO messages\<close> and the handling of its error (the same text in both
      functions)\<close>
  "insert_or_existing E opts row d1 =
     (case guarded E InsInsert (insert_into_messages E [row] d1) of
        Inr d2 \<Rightarrow> Inserted d2
      | Inl (UniqueViolation c) \<Rightarrow>
          if c = message_id_key then
            (case lookup_existing E opts d1 of
               Inr (existingID, existingUID) \<Rightarrow> Existing existingID existingUID
             | Inl q \<Rightarrow> InsertError ErrDBUniqueViolation)
          else InsertError ErrDBInsertFailed
      | Inl e \<Rightarrow> InsertError ErrDBInsertFailed)"

definition insert_message_contents :: "env \<Rightarrow> InsertMessageOptions \<Rightarrow> db \<Rightarrow> db" where
  \<comment> \<open>\<open>INSERT INTO message_contents ... ON CONFLICT (content_hash) DO NOTHING\<close>; the two
      \<open>tsvector\<close> columns are computed by the database from the text kept here\<close>
  "insert_message_contents E opts d =
     (if \<exists>r \<in> set (message_contents d). mc_content_hash r = ContentHash opts then d
      else d\<lparr>message_contents := message_contents d @
             [\<lparr>mc_content_hash = ContentHash opts,
               mc_text_body =
                 (if 0 < FTSRetention opts \<and> SentDate opts < now E - FTSRetention opts then None
                  else Some (SanitizeUTF8 E (PlaintextBody opts))),
               mc_tsv_source = SanitizeUTF8 E (PlaintextBody opts),
               mc_headers = RawHeaders opts\<rparr>]\<rparr>)"

definition insert_pending_upload :: "env \<Rightarrow> PendingUpload \<Rightarrow> db \<Rightarrow> db" where
  \<comment> \<open>\<open>INSERT INTO pending_uploads ... ON CONFLICT (content_hash, account_id) DO NOTHING\<close>\<close>
  "insert_pending_upload E upload d =
     (if \<exists>r \<in> set (pending_uploads d).
           pu_content_hash r = UploadContentHash upload \<and> pu_account_id r = UploadAccountID upload
      then d
      else d\<lparr>pending_uploads := pending_uploads d @
             [\<lparr>pu_instance_id = InstanceID upload, pu_content_hash = UploadContentHash upload,
               pu_size = UploadSize upload, pu_created_at = now E,
               pu_account_id = UploadAccountID upload\<rparr>]\<rparr>)"

definition InsertMessage ::
    "env \<Rightarrow> InsertMessageOptions \<Rightarrow> PendingUpload \<Rightarrow> db \<Rightarrow> (error + (int \<times> int)) \<times> db" where
  "InsertMessage E opts upload d =
     (case prepare_insert E opts messages_uploaded_default d of
        (Inl e, d1) \<Rightarrow> (Inl e, d1)
      | (Inr (highestUID, row), d1) \<Rightarrow>
          (case insert_or_existing E opts row d1 of
             InsertError e \<Rightarrow> (Inl e, d1)
           | Existing existingID existingUID \<Rightarrow> (Inr (existingID, existingUID), d1)
           | Inserted d2 \<Rightarrow>
               if faults E InsInsertContents then (Inl ErrDBInsertFailed, d2)
               else
                 (let d3 = insert_message_contents E opts d2
                  in if faults E InsInsertPending then (Inl ErrDBInsertFailed, d3)
                     else (Inr (msg_id row, highestUID), insert_pending_upload E upload d3))))"

definition InsertMessageFromImporter ::
    "env \<Rightarrow> InsertMessageOptions \<Rightarrow> db \<Rightarrow> (error + (int \<times> int)) \<times> db" where
  \<comment> \<open>the row is inserted with \<open>uploaded = true\<close>; the result carries \<open>uidToUse\<close>\<close>
  "InsertMessageFromImporter E opts d =
     (case prepare_insert E opts True d of
        (Inl e, d1) \<Rightarrow> (Inl e, d1)
      | (Inr (highestUID, row), d1) \<Rightarrow>
          (case insert_or_existing E opts row d1 of
             InsertError e \<Rightarrow> (Inl e, d1)
           | Existing existingID existingUID \<Rightarrow> (Inr (existingID, existingUID), d1)
           | Inserted d2 \<Rightarrow>
               if faults E InsInsertContents then (Inl ErrDBInsertFailed, d2)
               else (Inr (msg_id row, uid row), insert_message_contents E opts d2)))"

section \<open>The pre-lookup cache (server/proxy/prelookup_cache.go)\<close>

text \<open>
  Times are nanoseconds (\<open>time.Time\<close>, \<open>time.Duration\<close>). The Go map \<open>entries\<close> is an
  association list: its order stands for the order in which \<open>range\<close> visits the map, which
  the runtime chooses. \<open>AuthResult\<close> is declared elsewhere in the package; the cache names
  \<open>AuthUserNotFound\<close> and \<open>AuthFailed\<close>. A miss of \<open>Get\<close> (third result \<open>false\<close>) is
  \<open>None\<close>. The clock \<open>time.Now()\<close> is an argument.
\<close>

datatype AuthResult = AuthUserNotFound | AuthFailed | AuthSuccess

record 'i cacheEntry =
  info :: "'i option"
  authResult :: AuthResult
  expiresAt :: int
  isNegative :: bool

record 'i prelookupCache =
  entries :: "(string \<times> 'i cacheEntry) list"
  positiveTTL :: int
  negativeTTL :: int
  maxSize :: int
  hits :: "64 word"
  misses :: "64 word"



fun oldest_loop :: "(string \<times> 'i cacheEntry) list \<Rightarrow> string \<Rightarrow> int \<Rightarrow> bool \<Rightarrow> string" where
  "oldest_loop [] oldestKey oldestTime first = oldestKey"
| "oldest_loop ((key, entry) # rest) oldestKey oldestTime first =
     (if first \<or> expiresAt entry < oldestTime then oldest_loop rest key (expiresAt entry) False
      else oldest_loop rest oldestKey oldestTime first)"

definition evictOldest :: "'i prelookupCache \<Rightarrow> 'i prelookupCache" where
  "evictOldest c =
     (if length (entries c) = 0 then c
      else (let oldestKey = oldest_loop (entries c) [] 0 True
            in if oldestKey \<noteq> [] then c\<lparr>entries := AList.delete oldestKey (entries c)\<rparr> else c))"

definition Set :: "int \<Rightarrow> string \<Rightarrow> 'i option \<Rightarrow> AuthResult \<Rightarrow> 'i prelookupCache \<Rightarrow> 'i prelookupCache" where
  "Set now_t key routing r c =
     (let c1 = (if maxSize c \<le> int (length (entries c)) then evictOldest c else c);
          neg = (r = AuthUserNotFound \<or> r = AuthFailed);
          ttl = (if neg then negativeTTL c1 else positiveTTL c1)
      in c1\<lparr>entries := AList.update key
                \<lparr>info = routing, authResult = r, expiresAt = now_t + ttl, isNegative = neg\<rparr>
                (entries c1)\<rparr>)"

definition cleanup :: "int \<Rightarrow> 'i prelookupCache \<Rightarrow> 'i prelookupCache" where
  "cleanup now_t c = c\<lparr>entries := filter (\<lambda>(key, entry). \<not> expiresAt entry < now_t) (entries c)\<rparr>"

section \<open>The ManageSieve session (package managesieve)\<close>

text \<open>
  A handler takes the session and returns its result with the session, to which the
  responses it wrote are appended (\<open>written\<close>). A handler that reads \<open>s.UserID()\<close> with no
  user set dereferences nil; that result is \<open>None\<close>. What the handlers take from outside
  the file is in \<open>sieve_server\<close>: the outcome of the n-th call of
  \<open>AcquireReadLockWithTimeout\<close> or \<open>AcquireWriteLockWithTimeout\<close> made by the command
  (\<open>False\<close> is a timeout), the outcome of its n-th test \<open>s.ctx.Err() != nil\<close>, the server's
  configuration, the script validator, the database calls, the helpers of the standard
  library, the line read from the client, and the authentication services. Logging,
  metrics and the recording of authentication attempts are left out.
\<close>

record User =
  user_address :: string
  user_id :: int

record ManageSieveSession =
  authenticated :: bool
  session_user :: "User option"
  useMasterDB :: bool
  isTLS :: bool
  written :: "string list"

record SieveScript =
  script_ID :: int
  script_Name :: string
  script_Script :: string
  script_Active :: bool

datatype script_lookup = Found SieveScript | ErrDBNotFound | LookupError

record sieve_server =
  acquire :: "nat \<Rightarrow> bool"
  ctx_err :: "nat \<Rightarrow> bool"
  maxScriptSize :: int
  supportedExtensions :: "string list"
  tls_configured :: bool
  useStartTLS :: bool
  insecureAuth :: bool
  sieve_Load :: "string \<Rightarrow> string option"
  GetUserScripts :: "bool \<Rightarrow> int \<Rightarrow> SieveScript list option"
  GetScriptByName :: "bool \<Rightarrow> string \<Rightarrow> int \<Rightarrow> script_lookup"
  UpdateScript :: "int \<Rightarrow> int \<Rightarrow> string \<Rightarrow> string \<Rightarrow> bool"
  CreateScript :: "int \<Rightarrow> string \<Rightarrow> string \<Rightarrow> bool"
  SetScriptActive :: "int \<Rightarrow> int \<Rightarrow> bool \<Rightarrow> bool"
  DeleteScript :: "int \<Rightarrow> int \<Rightarrow> bool"
  ToUpper :: "string \<Rightarrow> string"
  TrimSpace :: "string \<Rightarrow> string"
  read_line :: "string option"
  base64_decode :: "string \<Rightarrow> string option"
  NewAddress :: "string \<Rightarrow> string option"
  masterSASLUsername :: string
  masterSASLPassword :: string
  GetAccountIDByAddress :: "string \<Rightarrow> int option"
  authLimiter :: "(string \<Rightarrow> bool) option"
  Authenticate :: "string \<Rightarrow> string \<Rightarrow> int option"






definition join_words :: "string list \<Rightarrow> string" where
  "join_words ws = (case ws of [] \<Rightarrow> [] | w # rest \<Rightarrow> foldl (\<lambda>acc x. acc @ '' '' @ x) w rest)"







definition pin_session :: "sieve_server \<Rightarrow> nat \<Rightarrow> ManageSieveSession \<Rightarrow> ManageSieveSession" where
  "pin_session E n s = (if \<not> acquire E n then s else s\<lparr>useMasterDB := True\<rparr>)"









section \<open>The HTTP pre-lookup client and the ESEARCH response\<close>

text \<open>
  The functions of this section are not among the sources; their tests are. They are
  modelled from the specification and from what the tests expect.
\<close>

datatype prelookup_error = ErrPrelookupTransient | ErrPrelookupInvalidResponse

record lookup_response =
  resp_address :: string
  resp_password_hash :: string
  resp_server :: string

datatype http_outcome =
    NetworkFailure
  | CircuitBreakerOpen
  | HttpStatus int "lookup_response option"

record UserRoutingInfo =
  route_address :: string
  route_server :: string

definition LookupUserRoute ::
    "(string \<Rightarrow> string \<Rightarrow> bool) \<Rightarrow> string \<Rightarrow> http_outcome
      \<Rightarrow> UserRoutingInfo option \<times> AuthResult \<times> prelookup_error option" where
  \<comment> \<open>Modelled from the spec: the classification of a lookup outcome by the HTTP pre-lookup
      client (http_prelookup.go is not among the sources; its test
      http_prelookup_errors_test.go is). Section 4.5: the pre-lookup returns one of
      Authenticated, UserNotFound, Failed, Transient with distinct error kinds. The cases
      are those of the test's table: 4xx is user-not-found without error; 5xx, a network
      failure and an open circuit breaker are transient; a 200 body that is not JSON
      (\<open>None\<close>) or has an empty \<open>address\<close> or \<open>password_hash\<close> is an invalid response; a 200
      body without \<open>server\<close> is user-not-found; a valid body is checked against the
      password. Any other status is taken as an invalid response.\<close>
  "LookupUserRoute verify password outcome =
     (case outcome of
        NetworkFailure \<Rightarrow> (None, AuthFailed, Some ErrPrelookupTransient)
      | CircuitBreakerOpen \<Rightarrow> (None, AuthFailed, Some ErrPrelookupTransient)
      | HttpStatus code body \<Rightarrow>
          if 500 \<le> code \<and> code \<le> 599 then (None, AuthFailed, Some ErrPrelookupTransient)
          else if 400 \<le> code \<and> code \<le> 499 then (None, AuthUserNotFound, None)
          else if code = 200 then
            (case body of
               None \<Rightarrow> (None, AuthFailed, Some ErrPrelookupInvalidResponse)
             | Some b \<Rightarrow>
                 if resp_address b = [] \<or> resp_password_hash b = []
                 then (None, AuthFailed, Some ErrPrelookupInvalidResponse)
                 else if resp_server b = [] then (None, AuthUserNotFound, None)
                 else if verify password (resp_password_hash b)
                 then (Some \<lparr>route_address = resp_address b, route_server = resp_server b\<rparr>,
                       AuthSuccess, None)
                 else (None, AuthFailed, None))
          else (None, AuthFailed, Some ErrPrelookupInvalidResponse))"

definition falls_back_to_database ::
    "UserRoutingInfo option \<times> AuthResult \<times> prelookup_error option \<Rightarrow> bool" where
  \<comment> \<open>Modelled from the spec: what the proxies (not among the sources) do with the result.
      Section 4.5: UserNotFound falls back to DB auth, Transient does not.\<close>
  "falls_back_to_database r = (case r of (routing, result, err) \<Rightarrow> result = AuthUserNotFound \<and> err = None)"

record SearchOptions =
  ReturnMin :: bool
  ReturnMax :: bool
  ReturnAll :: bool
  ReturnCount :: bool

definition num_set :: "nat list \<Rightarrow> string" where
  "num_set ns = (case ns of [] \<Rightarrow> [] | n # rest \<Rightarrow> foldl (\<lambda>acc k. acc @ '','' @ decimal k) (decimal n) rest)"

definition esearch_response ::
    "string \<Rightarrow> bool \<Rightarrow> SearchOptions \<Rightarrow> nat list \<Rightarrow> string list" where
  \<comment> \<open>Modelled from the spec: the words of the untagged ESEARCH response that the IMAP
      server writes for a SEARCH with RETURN options (the server's search path and its
      response encoder are not among the sources; the test TestIMAP_ESearchEmptyResult is).
      Section 4.1: an empty result set emits the response without the \<open>ALL\<close> keyword;
      section 8, scenario 4: \<open>* ESEARCH (TAG "X") UID\<close>, no \<open>ALL\<close> token, no trailing set.
      The test expects \<open>Min\<close> and \<open>Max\<close> absent (read as 0) for an empty result.\<close>
  "esearch_response tag by_uid opts result =
     [''*'', ''ESEARCH'', ''(TAG \"'' @ tag @ ''\")''] @
     (if by_uid then [''UID''] else []) @
     (if result = [] then []
      else (if ReturnMin opts then [''MIN'', decimal (fold min result (hd result))] else []) @
           (if ReturnMax opts then [''MAX'', decimal (fold max result (hd result))] else []) @
           (if ReturnAll opts then [''ALL'', num_set result] else [])) @
     (if ReturnCount opts then [''COUNT'', decimal (length result)] else [])"

section \<open>Predicates used by the properties\<close>

definition mailbox_grows :: "db \<Rightarrow> db \<Rightarrow> int \<Rightarrow> bool" where
  \<comment> \<open>mailbox \<open>mb\<close>, if it exists before, exists after with a \<open>highest_uid\<close> not below\<close>
  "mailbox_grows d d' mb \<longleftrightarrow>
     (case mailboxes d mb of
        None \<Rightarrow> True
      | Some b \<Rightarrow> (case mailboxes d' mb of None \<Rightarrow> False | Some b' \<Rightarrow> highest_uid b \<le> highest_uid b'))"

definition has_pending :: "db \<Rightarrow> string \<Rightarrow> int \<Rightarrow> bool" where
  \<comment> \<open>a row of \<open>pending_uploads\<close> for \<open>(content_hash, account_id)\<close>\<close>
  "has_pending d h a \<longleftrightarrow>
     (\<exists>p \<in> set (pending_uploads d). pu_content_hash p = h \<and> pu_account_id p = a)"

definition pending_invariant :: "db \<Rightarrow> bool" where
  \<comment> \<open>every row of \<open>messages\<close> with \<open>uploaded = false\<close> has its row of \<open>pending_uploads\<close>\<close>
  "pending_invariant d \<longleftrightarrow>
     (\<forall>m \<in> set (messages d). \<not> uploaded m \<longrightarrow> has_pending d (content_hash m) (account_id m))"


definition rows_of :: "int \<Rightarrow> seq_row list \<Rightarrow> seq_row list" where
  \<comment> \<open>the rows of \<open>message_sequences\<close> of one mailbox\<close>
  "rows_of v t = filter (\<lambda>r. seq_mailbox_id r = v) t"

definition returned_ok :: "(error + 'a) \<times> db \<Rightarrow> bool" where
  "returned_ok r = (case fst r of Inl e \<Rightarrow> False | Inr x \<Rightarrow> True)"


section \<open>Concrete inputs\<close>

definition descr_none :: descr_columns where
  "descr_none = \<lparr>in_reply_to = [], subject = [], sent_date = 0, internal_date = 0,
     custom_flags = ''[]'', msg_size = 0, body_structure = [], recipients_json = ''[]'',
     s3_domain = [], s3_localpart = [], subject_sort = [], from_name_sort = [],
     from_email_sort = [], to_email_sort = [], cc_email_sort = []\<rparr>"

definition env_ok :: env where
  \<comment> \<open>no driver fault, no constraint on new rows\<close>
  "env_ok = \<lparr>now = 1000, FlagRecent = 32, SanitizeUTF8 = (\<lambda>s. s),
     descr_of_options = (\<lambda>opts. descr_none), bitwise_flags_of_options = (\<lambda>opts. 0),
     messages_constraints = (\<lambda>tbl r. None), faults = (\<lambda>c. False)\<rparr>"

definition msg_ex :: "int \<Rightarrow> int \<Rightarrow> int \<Rightarrow> string \<Rightarrow> int option \<Rightarrow> message" where
  "msg_ex i mb u mid ex =
     \<lparr>msg_id = i, account_id = 7, mailbox_id = Some mb, mailbox_path = ''INBOX'', uid = u,
      message_id = mid, content_hash = ''h'', uploaded = False, flags = 0,
      flags_changed_at = None, created_modseq = i, expunged_at = ex, descr = descr_none\<rparr>"

definition db_ex :: db where
  \<comment> \<open>mailbox 1 holds the live UIDs 1 and 3 and the expunged UID 2; mailbox 2 is empty\<close>
  "db_ex = \<lparr>mailboxes = [1 \<mapsto> \<lparr>mailbox_name = ''INBOX'', highest_uid = 3, uid_validity = 1\<rparr>,
                          2 \<mapsto> \<lparr>mailbox_name = ''Archive'', highest_uid = 10, uid_validity = 1\<rparr>],
            messages = [msg_ex 1 1 1 ''<a@x>'' None, msg_ex 2 1 2 ''<b@x>'' (Some 5),
                        msg_ex 3 1 3 ''<c@x>'' None],
            message_sequences = [], message_contents = [], pending_uploads = [],
            messages_id_seq = 3, messages_modseq = 3, advisory_locks = []\<rparr>"

definition db_ex2 :: db where
  \<comment> \<open>as \<open>db_ex\<close>, with the pending upload of the content \<open>h\<close> of account 7\<close>
  "db_ex2 = db_ex\<lparr>pending_uploads :=
      [\<lparr>pu_instance_id = ''node1'', pu_content_hash = ''h'', pu_size = 10,
        pu_created_at = 1, pu_account_id = 7\<rparr>]\<rparr>"

definition opts_ex :: InsertMessageOptions where
  "opts_ex = \<lparr>UserID = 7, MailboxID = 1, MailboxName = ''INBOX'', ContentHash = ''h2'',
     MessageID = ''<d@x>'', Subject = ''hello'', PlaintextBody = ''body'', SentDate = 900,
     InternalDate = 0, RawHeaders = ''Subject: hello'', PreservedUID = None,
     PreservedUIDValidity = None, FTSRetention = 0\<rparr>"


definition upload_ex :: PendingUpload where
  "upload_ex = \<lparr>InstanceID = ''node1'', UploadContentHash = ''h2'', UploadSize = 4,
     UploadAccountID = 7\<rparr>"



definition upload_other :: PendingUpload where
  \<comment> \<open>a pending upload whose content hash is not the one of \<open>opts_ex\<close>\<close>
  "upload_other = \<lparr>InstanceID = ''node1'', UploadContentHash = ''zz'', UploadSize = 4,
     UploadAccountID = 7\<rparr>"













definition verify_ex :: "string \<Rightarrow> string \<Rightarrow> bool" where
  "verify_ex password hash = (hash = ''hash-of-'' @ password)"

section \<open>Properties\<close>

subsection \<open>Evaluation of the concrete inputs\<close>

lemmas ex_defs = env_ok_def db_ex_def msg_ex_def descr_none_def live_in_def


lemma select_ex: "select_source db_ex 1 [1, 2, 3] = [msg_ex 1 1 1 ''<a@x>'' None, msg_ex 3 1 3 ''<c@x>'' None]"
  by (simp add: select_source_def ex_defs)

subsection \<open>Helper facts\<close>

lemma scan_rows_Inr:
  "scan_rows E ms = Inr (ids, us) \<Longrightarrow>
     ids = map msg_id ms \<and> us = map (\<lambda>m. word_of_int (uid m)) ms \<and>
     (\<forall>m \<in> set ms. 0 \<le> uid m \<and> uid m < 2 ^ 32)"
  by (induction ms arbitrary: ids us) (auto split: if_splits sum.splits)




lemma rebuild_sequences_frame:
  "rebuild_sequences v d = Inr d' \<Longrightarrow> mailboxes d' = mailboxes d \<and> messages d' = messages d
     \<and> pending_uploads d' = pending_uploads d \<and> message_contents d' = message_contents d"
  by (auto simp: rebuild_sequences_def Let_def split: if_splits)

lemma maintain_loop_frame:
  "maintain_loop vs d = Inr d' \<Longrightarrow> mailboxes d' = mailboxes d \<and> messages d' = messages d
     \<and> pending_uploads d' = pending_uploads d \<and> message_contents d' = message_contents d"
proof (induction vs arbitrary: d)
  case Nil
  then show ?case by simp
next
  case (Cons v vs)
  then show ?case
    by (auto split: sum.splits dest!: rebuild_sequences_frame)
qed

lemma insert_into_messages_frame:
  "insert_into_messages E rows d = Inr d' \<Longrightarrow> mailboxes d' = mailboxes d \<and> messages d' = messages d @ rows
     \<and> pending_uploads d' = pending_uploads d \<and> message_contents d' = message_contents d"
  by (auto simp: insert_into_messages_def maintain_message_sequences_def
      split: option.splits dest!: maintain_loop_frame)





lemma rows_of_row_numbers:
  "rows_of w (row_numbers v us) = (if w = v then row_numbers v us else [])"
  by (auto simp: rows_of_def row_numbers_def filter_empty_conv split: prod.splits)

lemma rows_of_kept:
  "rows_of w (filter (\<lambda>r. seq_mailbox_id r \<noteq> v) t) = (if w = v then [] else rows_of w t)"
  by (auto simp: rows_of_def filter_empty_conv intro: filter_cong)

lemma rebuild_sequences_Inr:
  assumes "rebuild_sequences v d = Inr d'"
  shows "messages d' = messages d" and "mailboxes d' = mailboxes d"
    and "advisory_locks d' = v # advisory_locks d"
    and "distinct (live_uids (messages d) v)"
    and "int (length (live_uids (messages d) v)) \<le> 2 ^ 31 - 1"
    and "rows_of w (message_sequences d') =
          (if w = v then row_numbers v (live_uids (messages d) v) else rows_of w (message_sequences d))"
proof -
  let ?us = "live_uids (messages d) v"
  have c: "distinct ?us" "\<not> 2 ^ 31 - 1 < int (length ?us)"
    using assms by (auto simp: rebuild_sequences_def Let_def split: if_splits)
  then have d': "d' = d\<lparr>advisory_locks := v # advisory_locks d,
        message_sequences := filter (\<lambda>r. seq_mailbox_id r \<noteq> v) (message_sequences d) @ row_numbers v ?us\<rparr>"
    using assms by (simp add: rebuild_sequences_def Let_def)
  show "messages d' = messages d" "mailboxes d' = mailboxes d"
    "advisory_locks d' = v # advisory_locks d"
    by (simp_all add: d')
  show "distinct ?us" by (rule c)
  show "int (length ?us) \<le> 2 ^ 31 - 1" using c by simp
  have "message_sequences d' = filter (\<lambda>r. seq_mailbox_id r \<noteq> v) (message_sequences d) @ row_numbers v ?us"
    by (simp add: d')
  then have "rows_of w (message_sequences d') =
      rows_of w (filter (\<lambda>r. seq_mailbox_id r \<noteq> v) (message_sequences d)) @ rows_of w (row_numbers v ?us)"
    by (simp add: rows_of_def)
  then show "rows_of w (message_sequences d') =
          (if w = v then row_numbers v ?us else rows_of w (message_sequences d))"
    by (simp add: rows_of_row_numbers rows_of_kept)
qed


lemma maintain_loop_succeeds:
  "\<forall>v \<in> set vs. distinct (live_uids (messages d) v) \<and>
        int (length (live_uids (messages d) v)) \<le> 2 ^ 31 - 1
   \<Longrightarrow> \<exists>d'. maintain_loop vs d = Inr d'"
proof (induction vs arbitrary: d)
  case Nil
  then show ?case by simp
next
  case (Cons u vs)
  then obtain d1 where r: "rebuild_sequences u d = Inr d1"
    by (auto simp: rebuild_sequences_def Let_def)
  have "messages d1 = messages d" by (rule rebuild_sequences_Inr(1) [OF r])
  then show ?case using Cons r by simp
qed


lemma insert_into_messages_succeeds:
  assumes "check_rows (messages_constraints E) (messages d) rows = None"
    and "\<forall>v \<in> set (distinct_mailbox_ids rows).
           distinct (live_uids (messages d @ rows) v) \<and>
           int (length (live_uids (messages d @ rows) v)) \<le> 2 ^ 31 - 1"
  shows "\<exists>d'. insert_into_messages E rows d = Inr d'"
  using assms
  by (simp add: insert_into_messages_def maintain_message_sequences_def affected_mailboxes_def
      maintain_loop_succeeds)

subsection \<open>CopyMessages when nothing matches\<close>





subsection \<open>CopyMessages: the UID map and the destination's \<open>highest_uid\<close>\<close>


lemma copy_ok_ex: "returned_ok (CopyMessages env_ok [1, 2, 3] 1 2 7 db_ex)"
  by code_simp



subsection \<open>The sequence-maintenance trigger\<close>



subsection \<open>\<open>highest_uid\<close> only advances\<close>

lemma mailbox_grows_refl: "mailbox_grows d d mb"
  by (simp add: mailbox_grows_def split: option.splits)

lemma mailbox_grows_trans:
  "mailbox_grows d d1 mb \<Longrightarrow> mailbox_grows d1 d2 mb \<Longrightarrow> mailbox_grows d d2 mb"
  by (auto simp: mailbox_grows_def split: option.splits)

lemma mailbox_grows_same: "mailboxes d' = mailboxes d \<Longrightarrow> mailbox_grows d d' mb"
  by (simp add: mailbox_grows_def split: option.splits)

lemma update_highest_uid_add_grows:
  "0 \<le> n \<Longrightarrow> update_highest_uid_add n k d = Inr (h, d') \<Longrightarrow> mailbox_grows d d' mb"
  by (auto simp: update_highest_uid_add_def mailbox_grows_def Let_def split: option.splits if_splits)

lemma update_highest_uid_greatest_grows:
  "update_highest_uid_greatest u k d = Inr (h, d') \<Longrightarrow> mailbox_grows d d' mb"
  by (auto simp: update_highest_uid_greatest_def mailbox_grows_def Let_def split: option.splits if_splits)

lemma update_uid_validity_grows: "mailbox_grows d (update_uid_validity v k d) mb"
  by (auto simp: update_uid_validity_def mailbox_grows_def split: option.splits)

lemma reserve_uid_grows: "mailbox_grows d (snd (reserve_uid E opts d)) mb"
  by (auto simp: reserve_uid_def guarded_def Let_def mailbox_grows_def
      update_highest_uid_add_def update_highest_uid_greatest_def update_uid_validity_def
      split: option.splits sum.splits prod.splits if_splits)

lemma prepare_insert_mailboxes:
  "mailboxes (snd (prepare_insert E opts upl d)) = mailboxes (snd (reserve_uid E opts d)) \<or>
   snd (prepare_insert E opts upl d) = d"
  by (auto simp: prepare_insert_def split: prod.splits sum.splits)

lemma prepare_insert_grows: "mailbox_grows d (snd (prepare_insert E opts upl d)) mb"
proof -
  from prepare_insert_mailboxes [of E opts upl d] show ?thesis
  proof
    assume "mailboxes (snd (prepare_insert E opts upl d)) = mailboxes (snd (reserve_uid E opts d))"
    then have "mailbox_grows (snd (reserve_uid E opts d)) (snd (prepare_insert E opts upl d)) mb"
      by (rule mailbox_grows_same)
    with reserve_uid_grows show ?thesis by (rule mailbox_grows_trans)
  next
    assume "snd (prepare_insert E opts upl d) = d"
    then show ?thesis by (simp add: mailbox_grows_refl)
  qed
qed

lemma insert_message_contents_frame:
  "mailboxes (insert_message_contents E opts d) = mailboxes d"
  "messages (insert_message_contents E opts d) = messages d"
  "pending_uploads (insert_message_contents E opts d) = pending_uploads d"
  by (simp_all add: insert_message_contents_def)

lemma insert_pending_upload_frame:
  "mailboxes (insert_pending_upload E upload d) = mailboxes d"
  "messages (insert_pending_upload E upload d) = messages d"
  by (simp_all add: insert_pending_upload_def)

lemma insert_or_existing_Inserted:
  "insert_or_existing E opts row d1 = Inserted d2 \<Longrightarrow> insert_into_messages E [row] d1 = Inr d2"
  by (auto simp: insert_or_existing_def guarded_def split: sum.splits pg_error.splits if_splits prod.splits)

lemma InsertMessage_mailboxes:
  "mailboxes (snd (InsertMessage E opts upload d)) = mailboxes (snd (prepare_insert E opts messages_uploaded_default d))"
  by (auto simp: InsertMessage_def Let_def insert_message_contents_frame insert_pending_upload_frame
      split: prod.splits sum.splits inserted.splits
      dest!: insert_or_existing_Inserted insert_into_messages_frame)

lemma InsertMessageFromImporter_mailboxes:
  "mailboxes (snd (InsertMessageFromImporter E opts d)) = mailboxes (snd (prepare_insert E opts True d))"
  by (auto simp: InsertMessageFromImporter_def Let_def insert_message_contents_frame
      split: prod.splits sum.splits inserted.splits
      dest!: insert_or_existing_Inserted insert_into_messages_frame)

lemma CopyMessages_mailboxes:
  "snd (CopyMessages E uids src dst userID d) = d \<or>
   (\<exists>h d1. update_highest_uid_add (int (length (select_source d src uids))) dst d = Inr (h, d1) \<and>
       mailboxes (snd (CopyMessages E uids src dst userID d)) = mailboxes d1)"
  by (auto simp: CopyMessages_def guarded_def Let_def
      split: sum.splits prod.splits if_splits option.splits
      dest!: insert_into_messages_frame scan_rows_Inr)

lemma CopyMessages_grows: "mailbox_grows d (snd (CopyMessages E uids src dst userID d)) mb"
proof -
  from CopyMessages_mailboxes [of E uids src dst userID d] show ?thesis
  proof (elim disjE exE conjE)
    assume "snd (CopyMessages E uids src dst userID d) = d"
    then show ?thesis by (simp add: mailbox_grows_refl)
  next
    fix h d1
    assume u: "update_highest_uid_add (int (length (select_source d src uids))) dst d = Inr (h, d1)"
      and m: "mailboxes (snd (CopyMessages E uids src dst userID d)) = mailboxes d1"
    have "mailbox_grows d d1 mb"
      using u by (rule update_highest_uid_add_grows [rotated]) simp
    moreover have "mailbox_grows d1 (snd (CopyMessages E uids src dst userID d)) mb"
      using m by (rule mailbox_grows_same)
    ultimately show ?thesis by (rule mailbox_grows_trans)
  qed
qed

lemma reserve_uid_Inr:
  assumes "reserve_uid E opts d = (Inr (h, u), d1)" and "mailboxes d (MailboxID opts) = Some b"
  shows "map_option highest_uid (mailboxes d1 (MailboxID opts)) = Some h"
    and "h = (case PreservedUID opts of None \<Rightarrow> highest_uid b + 1 | Some p \<Rightarrow> max (highest_uid b) (uint p))"
    and "u = (case PreservedUID opts of None \<Rightarrow> h | Some p \<Rightarrow> uint p)"
  using assms
  by (auto simp: reserve_uid_def guarded_def Let_def
      update_highest_uid_add_def update_highest_uid_greatest_def update_uid_validity_def
      split: option.splits sum.splits prod.splits if_splits)

lemma prepare_insert_Inr:
  assumes "prepare_insert E opts upl d = (Inr (h, row), d1)"
  shows "\<exists>u. reserve_uid E opts d = (Inr (h, u), d1) \<and> row = new_message_row E opts u upl d1"
  using assms
  by (auto simp: prepare_insert_def split: prod.splits sum.splits if_splits)

lemma reserve_uid_messages:
  "messages (snd (reserve_uid E opts d)) = messages d \<and>
   pending_uploads (snd (reserve_uid E opts d)) = pending_uploads d"
  by (auto simp: reserve_uid_def guarded_def Let_def
      update_highest_uid_add_def update_highest_uid_greatest_def update_uid_validity_def
      split: option.splits sum.splits prod.splits if_splits)

lemma prepare_insert_messages:
  "messages (snd (prepare_insert E opts upl d)) = messages d \<and>
   pending_uploads (snd (prepare_insert E opts upl d)) = pending_uploads d"
  using reserve_uid_messages [of E opts d]
  by (auto simp: prepare_insert_def split: prod.splits sum.splits if_splits)

lemma InsertMessage_ok_prepare:
  assumes "returned_ok (InsertMessage E opts upload d)"
  shows "\<exists>h row d1. prepare_insert E opts messages_uploaded_default d = (Inr (h, row), d1)"
  using assms
  by (auto simp: InsertMessage_def returned_ok_def split: prod.splits sum.splits)

lemma InsertMessage_ok_highest_uid:
  assumes ok: "returned_ok (InsertMessage E opts upload d)"
    and mb: "mailboxes d (MailboxID opts) = Some b"
  shows "map_option highest_uid (mailboxes (snd (InsertMessage E opts upload d)) (MailboxID opts)) =
     Some (case PreservedUID opts of None \<Rightarrow> highest_uid b + 1 | Some p \<Rightarrow> max (highest_uid b) (uint p))"
proof -
  from InsertMessage_ok_prepare [OF ok] obtain h row d1
    where p: "prepare_insert E opts messages_uploaded_default d = (Inr (h, row), d1)" by blast
  from prepare_insert_Inr [OF p] obtain u where r: "reserve_uid E opts d = (Inr (h, u), d1)" by blast
  have "mailboxes (snd (InsertMessage E opts upload d)) = mailboxes d1"
    using InsertMessage_mailboxes [of E opts upload d] p by simp
  then show ?thesis using reserve_uid_Inr(1,2) [OF r mb] by simp
qed

lemma CopyMessages_ok_highest_uid:
  assumes ok: "returned_ok (CopyMessages E uids src dst userID d)"
    and mb: "mailboxes d dst = Some b"
  shows "map_option highest_uid (mailboxes (snd (CopyMessages E uids src dst userID d)) dst) =
     Some (highest_uid b + int (length (select_source d src uids)))"
proof (cases "select_source d src uids = []")
  case True
  then have "snd (CopyMessages E uids src dst userID d) = d"
    by (auto simp: CopyMessages_def split: if_splits)
  then show ?thesis using True mb by simp
next
  case False
  have "\<exists>h d1. update_highest_uid_add (int (length (select_source d src uids))) dst d = Inr (h, d1) \<and>
       mailboxes (snd (CopyMessages E uids src dst userID d)) = mailboxes d1"
    using ok False
    by (auto simp: CopyMessages_def guarded_def Let_def returned_ok_def
      split: sum.splits prod.splits if_splits option.splits
      dest!: insert_into_messages_frame scan_rows_Inr)
  then show ?thesis using mb
    by (auto simp: update_highest_uid_add_def Let_def split: if_splits)
qed

text \<open>
  C3. For every mailbox, on every path of InsertMessage, InsertMessageFromImporter and
  CopyMessages (the error paths included, whose transaction the caller rolls back), the
  mailbox is still there afterwards with a \<open>highest_uid\<close> not below the one before. When
  InsertMessage returns without error, the \<open>highest_uid\<close> of its mailbox has grown by 1
  without a preserved UID and is the greater of the old value and the preserved UID with
  one; when CopyMessages returns without error, the destination's \<open>highest_uid\<close> has grown
  by the number of messages copied.
\<close>

theorem highest_uid_only_advances:
  "mailbox_grows d (snd (InsertMessage E opts upload d)) mb \<and>
   mailbox_grows d (snd (InsertMessageFromImporter E opts d)) mb \<and>
   mailbox_grows d (snd (CopyMessages E uids src dst userID d)) mb \<and>
   (returned_ok (InsertMessage E opts upload d) \<and> mailboxes d (MailboxID opts) = Some b \<longrightarrow>
      map_option highest_uid (mailboxes (snd (InsertMessage E opts upload d)) (MailboxID opts)) =
        Some (case PreservedUID opts of
                None \<Rightarrow> highest_uid b + 1
              | Some p \<Rightarrow> max (highest_uid b) (uint p))) \<and>
   (returned_ok (CopyMessages E uids src dst userID d) \<and> mailboxes d dst = Some b' \<longrightarrow>
      map_option highest_uid (mailboxes (snd (CopyMessages E uids src dst userID d)) dst) =
        Some (highest_uid b' + int (length (select_source d src uids))))"
proof -
  have "mailbox_grows d (snd (InsertMessage E opts upload d)) mb"
    by (rule mailbox_grows_trans [OF prepare_insert_grows mailbox_grows_same])
       (rule InsertMessage_mailboxes)
  moreover have "mailbox_grows d (snd (InsertMessageFromImporter E opts d)) mb"
    by (rule mailbox_grows_trans [OF prepare_insert_grows mailbox_grows_same])
       (rule InsertMessageFromImporter_mailboxes)
  ultimately show ?thesis
    using CopyMessages_grows InsertMessage_ok_highest_uid CopyMessages_ok_highest_uid
    by blast
qed

theorem highest_uid_only_advances_witness:
  "map_option highest_uid (mailboxes (snd (InsertMessage env_ok opts_ex upload_ex db_ex)) 1) = Some 4 \<and>
   map_option highest_uid (mailboxes (snd (CopyMessages env_ok [1, 2, 3] 1 2 7 db_ex)) 2) = Some 12 \<and>
   mailbox_grows db_ex (snd (InsertMessage env_ok opts_ex upload_ex db_ex)) 2"
proof -
  have 1: "returned_ok (InsertMessage env_ok opts_ex upload_ex db_ex)" by code_simp
  have 2: "mailboxes db_ex (MailboxID opts_ex) = Some \<lparr>mailbox_name = ''INBOX'', highest_uid = 3, uid_validity = 1\<rparr>"
    by (simp add: db_ex_def opts_ex_def)
  have 3: "mailboxes db_ex 2 = Some \<lparr>mailbox_name = ''Archive'', highest_uid = 10, uid_validity = 1\<rparr>"
    by (simp add: db_ex_def)
  have 4: "length (select_source db_ex 1 [1, 2, 3]) = 2" by (simp add: select_ex)
  have 5: "PreservedUID opts_ex = None" "MailboxID opts_ex = 1" by (simp_all add: opts_ex_def)
  show ?thesis
    using highest_uid_only_advances [of db_ex env_ok opts_ex upload_ex 2 "[1, 2, 3]" 1 2 7
        "\<lparr>mailbox_name = ''INBOX'', highest_uid = 3, uid_validity = 1\<rparr>"
        "\<lparr>mailbox_name = ''Archive'', highest_uid = 10, uid_validity = 1\<rparr>"]
      1 2 3 4 5 copy_ok_ex
    by simp
qed

subsection \<open>Pending uploads\<close>

lemma has_pending_insert: "has_pending (insert_pending_upload E upload d) (UploadContentHash upload) (UploadAccountID upload)"
  by (auto simp: has_pending_def insert_pending_upload_def)

lemma has_pending_mono_insert: "has_pending d h a \<Longrightarrow> has_pending (insert_pending_upload E upload d) h a"
  by (auto simp: has_pending_def insert_pending_upload_def)

lemma has_pending_cong: "pending_uploads d' = pending_uploads d \<Longrightarrow> has_pending d' h a = has_pending d h a"
  by (simp add: has_pending_def)

lemma InsertMessage_ok_cases:
  assumes "InsertMessage E opts upload d = (Inr (i, u), d')"
  obtains (existing) h row d1 where "prepare_insert E opts messages_uploaded_default d = (Inr (h, row), d1)"
      "insert_or_existing E opts row d1 = Existing i u" "d' = d1"
  | (inserted) h row d1 d2 where "prepare_insert E opts messages_uploaded_default d = (Inr (h, row), d1)"
      "insert_or_existing E opts row d1 = Inserted d2" "i = msg_id row" "u = h"
      "d' = insert_pending_upload E upload (insert_message_contents E opts d2)"
  using assms
  by (auto simp: InsertMessage_def Let_def split: prod.splits sum.splits inserted.splits if_splits)

lemma new_message_row_fields:
  "uploaded (new_message_row E opts u upl d) = upl"
  "content_hash (new_message_row E opts u upl d) = ContentHash opts"
  "account_id (new_message_row E opts u upl d) = UserID opts"
  "uid (new_message_row E opts u upl d) = u"
  "msg_id (new_message_row E opts u upl d) = messages_id_seq d + 1"
  "same_message E opts (new_message_row E opts u upl d)"
  by (simp_all add: new_message_row_def same_message_def)

lemma InsertMessage_row:
  assumes "InsertMessage E opts upload d = (Inr (i, u), d')"
  shows "messages d' = messages d \<or>
         (\<exists>row. messages d' = messages d @ [row] \<and> msg_id row = i \<and> \<not> uploaded row \<and>
                content_hash row = ContentHash opts \<and> account_id row = UserID opts \<and>
                has_pending d' (UploadContentHash upload) (UploadAccountID upload) \<and>
                (\<forall>h a. has_pending d h a \<longrightarrow> has_pending d' h a))"
  using assms
proof (cases rule: InsertMessage_ok_cases)
  case (existing h row d1)
  then show ?thesis using prepare_insert_messages [of E opts messages_uploaded_default d] by simp
next
  case (inserted h row d1 d2)
  from prepare_insert_Inr [OF inserted(1)] obtain u' where
    row: "row = new_message_row E opts u' messages_uploaded_default d1" by blast
  have m1: "messages d1 = messages d" "pending_uploads d1 = pending_uploads d"
    using prepare_insert_messages [of E opts messages_uploaded_default d] inserted(1) by simp_all
  from insert_into_messages_frame [OF insert_or_existing_Inserted [OF inserted(2)]]
  have m2: "messages d2 = messages d1 @ [row]" "pending_uploads d2 = pending_uploads d1" by simp_all
  have msgs: "messages d' = messages d @ [row]"
    by (simp add: inserted(5) insert_pending_upload_frame insert_message_contents_frame m1 m2)
  have keep: "has_pending d h a \<Longrightarrow> has_pending d' h a" for h a
    unfolding inserted(5)
    by (rule has_pending_mono_insert)
       (simp add: has_pending_def insert_message_contents_frame m1 m2)
  show ?thesis
    using msgs inserted(3) keep
    by (auto simp: row new_message_row_fields messages_uploaded_default_def inserted(5) has_pending_insert)
qed

lemma InsertMessage_pending_invariant:
  assumes inv: "pending_invariant d"
    and ok: "InsertMessage E opts upload d = (Inr (i, u), d')"
    and same: "UploadContentHash upload = ContentHash opts" "UploadAccountID upload = UserID opts"
  shows "pending_invariant d'"
  using InsertMessage_row [OF ok]
proof
  assume m: "messages d' = messages d"
  have "pending_uploads d' = pending_uploads d"
    using ok
  proof (cases rule: InsertMessage_ok_cases)
    case (existing h row d1)
    then show ?thesis using prepare_insert_messages [of E opts messages_uploaded_default d] by simp
  next
    case (inserted h row d1 d2)
    have "messages d1 = messages d"
      using prepare_insert_messages [of E opts messages_uploaded_default d] inserted(1) by simp
    moreover from insert_into_messages_frame [OF insert_or_existing_Inserted [OF inserted(2)]]
    have "messages d2 = messages d1 @ [row]" by simp
    ultimately have "messages d' = messages d @ [row]"
      by (simp add: inserted(5) insert_pending_upload_frame insert_message_contents_frame)
    with m show ?thesis by simp
  qed
  with inv m show ?thesis by (simp add: pending_invariant_def has_pending_def)
next
  assume "\<exists>row. messages d' = messages d @ [row] \<and> msg_id row = i \<and> \<not> uploaded row \<and>
                content_hash row = ContentHash opts \<and> account_id row = UserID opts \<and>
                has_pending d' (UploadContentHash upload) (UploadAccountID upload) \<and>
                (\<forall>h a. has_pending d h a \<longrightarrow> has_pending d' h a)"
  with inv same show ?thesis by (auto simp: pending_invariant_def)
qed

lemma prepare_insert_frame:
  assumes "prepare_insert E opts upl d = (r, d1)"
  shows "messages d1 = messages d" and "pending_uploads d1 = pending_uploads d"
  using prepare_insert_messages [of E opts upl d] assms by simp_all

lemma Importer_pending_invariant:
  assumes inv: "pending_invariant d"
  shows "pending_invariant (snd (InsertMessageFromImporter E opts d))"
proof -
  let ?d' = "snd (InsertMessageFromImporter E opts d)"
  obtain r d1 where p: "prepare_insert E opts True d = (r, d1)"
    by (cases "prepare_insert E opts True d")
  note f1 = prepare_insert_frame [OF p]
  have "pending_uploads ?d' = pending_uploads d \<and>
        (messages ?d' = messages d \<or> (\<exists>row. messages ?d' = messages d @ [row] \<and> uploaded row))"
  proof (cases r)
    case (Inl e)
    then show ?thesis using p f1 by (simp add: InsertMessageFromImporter_def)
  next
    case (Inr hr)
    obtain h row where hr: "hr = (h, row)" by (cases hr)
    from prepare_insert_Inr [OF p [unfolded Inr hr]]
    have up: "uploaded row" by (auto simp: new_message_row_fields)
    show ?thesis
    proof (cases "insert_or_existing E opts row d1")
      case (Inserted d2)
      from insert_into_messages_frame [OF insert_or_existing_Inserted [OF Inserted]]
      have "messages d2 = messages d1 @ [row]" "pending_uploads d2 = pending_uploads d1" by simp_all
      then show ?thesis using p Inr hr Inserted f1 up
        by (simp add: InsertMessageFromImporter_def insert_message_contents_frame)
    next
      case (Existing i u)
      then show ?thesis using p Inr hr f1 by (simp add: InsertMessageFromImporter_def)
    next
      case (InsertError e)
      then show ?thesis using p Inr hr f1 by (simp add: InsertMessageFromImporter_def)
    qed
  qed
  with inv show ?thesis by (auto simp: pending_invariant_def has_pending_def)
qed

lemma copy_join_rows:
  "r \<in> set (number_rows d1 (copy_join E d0 dest nm ids us)) \<Longrightarrow>
     \<exists>m \<in> set (messages d0). content_hash r = content_hash m \<and> account_id r = account_id m \<and>
        uploaded r = uploaded m"
  by (fastforce simp: number_rows_def copy_join_def copied_row_def dest!: set_zip_leftD)

lemma CopyMessages_pending_invariant:
  assumes inv: "pending_invariant d"
  shows "pending_invariant (snd (CopyMessages E uids src dst userID d))"
proof -
  let ?d' = "snd (CopyMessages E uids src dst userID d)"
  have "pending_uploads ?d' = pending_uploads d \<and>
        (\<forall>r \<in> set (messages ?d'). r \<in> set (messages d) \<or>
            (\<exists>m \<in> set (messages d). content_hash r = content_hash m \<and> account_id r = account_id m \<and>
               uploaded r = uploaded m))"
    by (auto simp: CopyMessages_def guarded_def Let_def update_highest_uid_add_def
        split: sum.splits prod.splits if_splits option.splits
        dest!: insert_into_messages_frame copy_join_rows)
  with inv show ?thesis by (fastforce simp: pending_invariant_def has_pending_def)
qed

text \<open>
  C4 (as the code has it). When InsertMessage returns without error it has either found
  an existing message (and added no row), or added one row to \<open>messages\<close>, with
  \<open>uploaded = false\<close>, and a row of \<open>pending_uploads\<close> is then present for the content hash
  and account id of its \<open>PendingUpload\<close> argument. When that argument carries the content
  hash and account id of the message, the invariant "every row of \<open>messages\<close> with
  \<open>uploaded = false\<close> has a row of \<open>pending_uploads\<close>" is kept by a successful
  InsertMessage; InsertMessageFromImporter (which inserts with \<open>uploaded = true\<close>) and
  CopyMessages (which copies \<open>uploaded\<close>, content hash and account id together) keep it on
  every path.
\<close>

theorem InsertMessage_pending_upload:
  "(InsertMessage E opts upload d = (Inr (i, u), d') \<longrightarrow>
      messages d' = messages d \<or>
      (\<exists>row. messages d' = messages d @ [row] \<and> msg_id row = i \<and> \<not> uploaded row \<and>
             content_hash row = ContentHash opts \<and> account_id row = UserID opts \<and>
             has_pending d' (UploadContentHash upload) (UploadAccountID upload))) \<and>
   (InsertMessage E opts upload d = (Inr (i, u), d') \<and> pending_invariant d \<and>
      UploadContentHash upload = ContentHash opts \<and> UploadAccountID upload = UserID opts \<longrightarrow>
      pending_invariant d') \<and>
   (pending_invariant d \<longrightarrow>
      pending_invariant (snd (InsertMessageFromImporter E opts d)) \<and>
      pending_invariant (snd (CopyMessages E uids src dst userID d)))"
  using InsertMessage_row [of E opts upload d i u d']
    InsertMessage_pending_invariant [of d E opts upload i u d']
    Importer_pending_invariant [of d E opts]
    CopyMessages_pending_invariant [of d E uids src dst userID]
  by blast

theorem InsertMessage_pending_upload_witness:
  "pending_invariant (snd (InsertMessage env_ok opts_ex upload_ex db_ex2)) \<and>
   pending_invariant (snd (InsertMessageFromImporter env_ok opts_ex db_ex2)) \<and>
   pending_invariant (snd (CopyMessages env_ok [1, 2, 3] 1 2 7 db_ex2)) \<and>
   map uploaded (messages (snd (InsertMessage env_ok opts_ex upload_ex db_ex2))) = [False, False, False, False]"
proof -
  let ?r = "InsertMessage env_ok opts_ex upload_ex db_ex2"
  have "fst ?r = Inr (4, 4)" by code_simp
  then have r: "?r = (Inr (4, 4), snd ?r)" by (simp add: prod_eq_iff)
  have inv: "pending_invariant db_ex2" by code_simp
  have same: "UploadContentHash upload_ex = ContentHash opts_ex" "UploadAccountID upload_ex = UserID opts_ex"
    by (simp_all add: upload_ex_def opts_ex_def)
  have up: "map uploaded (messages (snd ?r)) = [False, False, False, False]" by code_simp
  show ?thesis
    using InsertMessage_pending_upload [of env_ok opts_ex upload_ex db_ex2 4 4 "snd ?r" "[1, 2, 3]" 1 2 7]
      r inv same up
    by simp
qed

text \<open>
  The claim as stated ties the pending row to the message's own content hash and
  account id; InsertMessage takes them from its \<open>PendingUpload\<close> argument, and with another
  hash there the new message (id 4, content \<open>h2\<close>, \<open>uploaded = false\<close>) has no pending row.
\<close>

theorem InsertMessage_pending_upload_counterexample:
  "fst (InsertMessage env_ok opts_ex upload_other db_ex2) = Inr (4, 4) \<and>
   map msg_id (messages (snd (InsertMessage env_ok opts_ex upload_other db_ex2))) = [1, 2, 3, 4] \<and>
   map uploaded (messages (snd (InsertMessage env_ok opts_ex upload_other db_ex2))) = [False, False, False, False] \<and>
   map content_hash (messages (snd (InsertMessage env_ok opts_ex upload_other db_ex2))) = [''h'', ''h'', ''h'', ''h2''] \<and>
   map account_id (messages (snd (InsertMessage env_ok opts_ex upload_other db_ex2))) = [7, 7, 7, 7] \<and>
   map pu_content_hash (pending_uploads (snd (InsertMessage env_ok opts_ex upload_other db_ex2))) = [''h'', ''zz'']"
  by code_simp

subsection \<open>A duplicate Message-ID\<close>








subsection \<open>The pre-lookup cache\<close>



lemma Set_distinct:
  "distinct (map fst (entries c)) \<Longrightarrow> distinct (map fst (entries (Set ts key routing r c)))"
  by (simp add: Set_def Let_def evictOldest_def distinct_update distinct_delete)







subsection \<open>Lock timeouts in the ManageSieve session\<close>


lemma pin_session_written: "written (pin_session E n s) = written s"
  by (simp add: pin_session_def)





subsection \<open>The kinds of pre-lookup results\<close>

text \<open>
  C7. The pre-lookup client classifies a 4xx response (404 included) as \<open>AuthUserNotFound\<close>
  with no error and no routing info, on which the caller falls back to database
  authentication; a 5xx response, a network failure and an open circuit breaker as
  \<open>AuthFailed\<close> with the transient error, on which it does not; and a 200 response whose body
  is not JSON or has an empty \<open>address\<close> or \<open>password_hash\<close> as an invalid response.
\<close>

theorem LookupUserRoute_error_kinds:
  "(400 \<le> code \<and> code \<le> 499 \<longrightarrow>
      LookupUserRoute verify password (HttpStatus code body) = (None, AuthUserNotFound, None) \<and>
      falls_back_to_database (LookupUserRoute verify password (HttpStatus code body))) \<and>
   (outcome = NetworkFailure \<or> outcome = CircuitBreakerOpen \<or>
      (\<exists>code body. outcome = HttpStatus code body \<and> 500 \<le> code \<and> code \<le> 599) \<longrightarrow>
      LookupUserRoute verify password outcome = (None, AuthFailed, Some ErrPrelookupTransient) \<and>
      \<not> falls_back_to_database (LookupUserRoute verify password outcome)) \<and>
   (body = None \<or> (\<exists>b. body = Some b \<and> (resp_address b = [] \<or> resp_password_hash b = [])) \<longrightarrow>
      LookupUserRoute verify password (HttpStatus 200 body) =
        (None, AuthFailed, Some ErrPrelookupInvalidResponse))"
  by (auto simp: LookupUserRoute_def falls_back_to_database_def)

theorem LookupUserRoute_error_kinds_witness:
  "LookupUserRoute verify_ex ''pw'' (HttpStatus 404 None) = (None, AuthUserNotFound, None) \<and>
   falls_back_to_database (LookupUserRoute verify_ex ''pw'' (HttpStatus 404 None)) \<and>
   LookupUserRoute verify_ex ''pw'' (HttpStatus 503 None) = (None, AuthFailed, Some ErrPrelookupTransient) \<and>
   \<not> falls_back_to_database (LookupUserRoute verify_ex ''pw'' NetworkFailure) \<and>
   LookupUserRoute verify_ex ''pw''
      (HttpStatus 200 (Some \<lparr>resp_address = [], resp_password_hash = ''hash-of-pw'',
                               resp_server = ''backend:143''\<rparr>)) =
     (None, AuthFailed, Some ErrPrelookupInvalidResponse)"
proof -
  note T = LookupUserRoute_error_kinds
  have h4: "(400::int) \<le> 404 \<and> (404::int) \<le> 499" by simp
  have h5: "\<exists>code body. HttpStatus 503 None = HttpStatus code body \<and> 500 \<le> code \<and> code \<le> 599"
    by (intro exI [of _ 503] exI [of _ None]) simp
  have hb: "\<exists>b. Some \<lparr>resp_address = [], resp_password_hash = ''hash-of-pw'', resp_server = ''backend:143''\<rparr> = Some b \<and>
      (resp_address b = [] \<or> resp_password_hash b = [])"
    by simp
  from T [where code = 404 and verify = verify_ex and password = "''pw''" and body = None] h4
  have 1: "LookupUserRoute verify_ex ''pw'' (HttpStatus 404 None) = (None, AuthUserNotFound, None) \<and>
   falls_back_to_database (LookupUserRoute verify_ex ''pw'' (HttpStatus 404 None))"
    by blast
  from T [where outcome = "HttpStatus 503 None" and verify = verify_ex and password = "''pw''"] h5
  have 2: "LookupUserRoute verify_ex ''pw'' (HttpStatus 503 None) = (None, AuthFailed, Some ErrPrelookupTransient)"
    by blast
  from T [where outcome = NetworkFailure and verify = verify_ex and password = "''pw''"]
  have 3: "\<not> falls_back_to_database (LookupUserRoute verify_ex ''pw'' NetworkFailure)"
    by blast
  from T [where verify = verify_ex and password = "''pw''"
      and body = "Some \<lparr>resp_address = [], resp_password_hash = ''hash-of-pw'', resp_server = ''backend:143''\<rparr>"] hb
  have 4: "LookupUserRoute verify_ex ''pw''
      (HttpStatus 200 (Some \<lparr>resp_address = [], resp_password_hash = ''hash-of-pw'',
                               resp_server = ''backend:143''\<rparr>)) =
     (None, AuthFailed, Some ErrPrelookupInvalidResponse)"
    by blast
  from 1 2 3 4 show ?thesis by blast
qed

subsection \<open>ESEARCH with an empty result\<close>

text \<open>
  C9. For a SEARCH or UID SEARCH with RETURN options whose result is empty, the untagged
  ESEARCH response has no \<open>ALL\<close> keyword and no set: it is \<open>* ESEARCH (TAG "X")\<close>, followed
  by \<open>UID\<close> for UID SEARCH (and by \<open>COUNT 0\<close> only when COUNT was asked for).
\<close>

theorem esearch_empty_result_omits_all:
  "''ALL'' \<notin> set (esearch_response tag by_uid opts []) \<and>
   esearch_response tag True (opts\<lparr>ReturnCount := False\<rparr>) [] =
     [''*'', ''ESEARCH'', ''(TAG \"'' @ tag @ ''\")'', ''UID''] \<and>
   esearch_response tag False (opts\<lparr>ReturnCount := False\<rparr>) [] =
     [''*'', ''ESEARCH'', ''(TAG \"'' @ tag @ ''\")'']"
  by (simp add: esearch_response_def)

theorem esearch_empty_result_omits_all_witness:
  "join_words (esearch_response ''X'' True
      \<lparr>ReturnMin = False, ReturnMax = False, ReturnAll = True, ReturnCount = False\<rparr> []) =
     ''* ESEARCH (TAG \"X\") UID''"
  using esearch_empty_result_omits_all [of "''X''" True
      "\<lparr>ReturnMin = False, ReturnMax = False, ReturnAll = True, ReturnCount = False\<rparr>"]
  by (simp add: join_words_def)

end
